theory Spec2Isabelle
  imports Main
begin

section \<open>Free-slot computation (\<^verbatim>\<open>findFreeSlots\<close>, serverv3.js lines 952-998)\<close>

text \<open>
  Instants are JavaScript \<^verbatim>\<open>Date\<close> time values: whole milliseconds since the epoch,
  hence \<^typ>\<open>int\<close>. A calendar event carries its start and its end either as a
  timestamp (\<^verbatim>\<open>dateTime\<close>) or, for an all-day event, as a day (\<^verbatim>\<open>date\<close>); the source
  reads \<^verbatim>\<open>new Date(event.start.dateTime || event.start.date)\<close>. The constructor argument
  is the time value that \<^verbatim>\<open>new Date\<close> yields for the string. Strings that denote no instant
  (an invalid \<^verbatim>\<open>Date\<close>) are outside the model: the window and the events come back
  from a calendar listing that accepted and produced them.
\<close>

datatype event_time = DateTime int | AllDay int

fun new_Date :: "event_time \<Rightarrow> int" where
  "new_Date (DateTime t) = t"
| "new_Date (AllDay t) = t"

text \<open>\<^verbatim>\<open>event.start\<close> and \<^verbatim>\<open>event.end\<close> (\<^verbatim>\<open>end\<close> is reserved in Isabelle).\<close>

record event =
  ev_start :: event_time
  ev_end :: event_time

text \<open>
  An element of \<^verbatim>\<open>freeSlots\<close>: \<^verbatim>\<open>{start, end, duration}\<close>. The source stores
  \<^verbatim>\<open>toISOString()\<close> of the two instants; the model keeps the instants themselves.
\<close>

record free_slot =
  slot_start :: int
  slot_end :: int
  slot_duration :: int

text \<open>
  The body of \<^verbatim>\<open>for (const event of events)\<close>, on the loop state
  \<open>(currentTime, freeSlots)\<close>. \<open>duration\<close> is the requested number of minutes, taken
  as a whole number (of either sign: the tool's schema only asks for a number);
  \<^verbatim>\<open>Math.floor(x / 60000)\<close> is \<open>x div 60000\<close> on integers.
\<close>

definition slot_step :: "int \<Rightarrow> int \<times> free_slot list \<Rightarrow> event \<Rightarrow> int \<times> free_slot list" where
  "slot_step duration st event =
     (let currentTime = fst st;
          freeSlots = snd st;
          eventStart = new_Date (ev_start event);
          eventEnd = new_Date (ev_end event);
          freeSlots' =
            (if eventStart - currentTime \<ge> duration * 60000
             then freeSlots @
                    [\<lparr>slot_start = currentTime, slot_end = eventStart,
                      slot_duration = (eventStart - currentTime) div 60000\<rparr>]
             else freeSlots)
      in (if eventEnd > currentTime then eventEnd else currentTime, freeSlots'))"

fun slot_loop :: "int \<Rightarrow> int \<times> free_slot list \<Rightarrow> event list \<Rightarrow> int \<times> free_slot list" where
  "slot_loop duration st [] = st"
| "slot_loop duration st (event # events) = slot_loop duration (slot_step duration st event) events"

text \<open>
  \<open>findFreeSlots startDate endDate duration events\<close>: the list \<^verbatim>\<open>freeSlots\<close> that the
  method serialises into its result, where \<open>events\<close> is \<^verbatim>\<open>res.data.items || []\<close>, the
  answer of the calendar listing (requested with \<^verbatim>\<open>orderBy: "startTime"\<close>).
\<close>

definition findFreeSlots :: "int \<Rightarrow> int \<Rightarrow> int \<Rightarrow> event list \<Rightarrow> free_slot list" where
  "findFreeSlots startDate endDate duration events =
     (let st = slot_loop duration (startDate, []) events;
          currentTime = fst st;
          freeSlots = snd st
      in if endDate - currentTime \<ge> duration * 60000
         then freeSlots @
                [\<lparr>slot_start = currentTime, slot_end = endDate,
                  slot_duration = (endDate - currentTime) div 60000\<rparr>]
         else freeSlots)"

text \<open>An event with timestamps \<open>s\<close> and \<open>e\<close>, and the interval an event occupies.\<close>

definition timed :: "int \<Rightarrow> int \<Rightarrow> event" where
  "timed s e = \<lparr>ev_start = DateTime s, ev_end = DateTime e\<rparr>"

definition busy_of :: "event \<Rightarrow> int \<times> int" where
  "busy_of event = (new_Date (ev_start event), new_Date (ev_end event))"

definition slot_span :: "free_slot \<Rightarrow> int \<times> int" where
  "slot_span f = (slot_start f, slot_end f)"

text \<open>The instants of a half-open interval \<open>[a, b)\<close>.\<close>

definition span :: "int \<times> int \<Rightarrow> int set" where
  "span iv = {fst iv ..< snd iv}"

subsection \<open>Notions used to state the properties of the slot finder\<close>

text \<open>
  \<open>chain lo bs hi\<close>: the intervals \<open>bs\<close> follow one another between \<open>lo\<close> and \<open>hi\<close>:
  each starts no earlier than the previous one ended, and ends no earlier than it starts.
\<close>

fun chain :: "int \<Rightarrow> (int \<times> int) list \<Rightarrow> int \<Rightarrow> bool" where
  "chain lo [] hi = (lo \<le> hi)"
| "chain lo (b # bs) hi = (lo \<le> fst b \<and> fst b \<le> snd b \<and> chain (snd b) bs hi)"

text \<open>
  The complement of the busy intervals in the window: the stretch before the first busy
  interval, those between two consecutive ones, and the stretch after the last.
\<close>

fun gaps :: "int \<Rightarrow> (int \<times> int) list \<Rightarrow> int \<Rightarrow> (int \<times> int) list" where
  "gaps lo [] hi = [(lo, hi)]"
| "gaps lo (b # bs) hi = (lo, fst b) # gaps (snd b) bs hi"

text \<open>A stretch lasts at least \<open>duration\<close> minutes.\<close>

definition long_enough :: "int \<Rightarrow> int \<times> int \<Rightarrow> bool" where
  "long_enough duration g = (snd g - fst g \<ge> duration * 60000)"

text \<open>The statement after the loop, on the final loop state.\<close>

definition finish :: "int \<Rightarrow> int \<Rightarrow> int \<times> free_slot list \<Rightarrow> free_slot list" where
  "finish duration endDate st =
     (if endDate - fst st \<ge> duration * 60000
      then snd st @ [\<lparr>slot_start = fst st, slot_end = endDate,
                      slot_duration = (endDate - fst st) div 60000\<rparr>]
      else snd st)"

text \<open>
  Two intervals overlap when each starts before the other ends; this covers an interval
  contained in another.
\<close>

definition overlapping :: "int \<times> int \<Rightarrow> int \<times> int \<Rightarrow> bool" where
  "overlapping a b = (fst b < snd a \<and> fst a < snd b)"

text \<open>The event that spans two overlapping events: the first one's start, the later end.\<close>

definition merged :: "event \<Rightarrow> event \<Rightarrow> event" where
  "merged e1 e2 =
     \<lparr>ev_start = ev_start e1,
      ev_end = (if new_Date (ev_end e2) > new_Date (ev_end e1) then ev_end e2 else ev_end e1)\<rparr>"

text \<open>A free slot that does not run backwards.\<close>

definition slot_nonneg :: "free_slot \<Rightarrow> bool" where
  "slot_nonneg f = (0 \<le> slot_duration f \<and> slot_start f \<le> slot_end f)"

text \<open>
  An event that does not end before it starts, and is not empty when the requested
  duration is zero.
\<close>

definition proper_event :: "int \<Rightarrow> event \<Rightarrow> bool" where
  "proper_event d ev =
     (new_Date (ev_start ev) \<le> new_Date (ev_end ev) \<and>
      (0 < d \<or> new_Date (ev_start ev) < new_Date (ev_end ev)))"

text \<open>Loop invariant: the slots found so far are distinct and start before the cursor.\<close>

definition behind :: "int \<times> free_slot list \<Rightarrow> bool" where
  "behind st = (distinct (snd st) \<and> list_all (\<lambda>f. slot_start f < fst st) (snd st))"

section \<open>Credential lifecycle (serverv3.js lines 61-202 and 638-706)\<close>

subsection \<open>Data\<close>

text \<open>
  What reading a JSON document from a file or from an environment variable can give:
  \<open>Missing\<close> when the file does not exist (the variable is unset or empty),
  \<open>Malformed\<close> for a text on which \<^verbatim>\<open>JSON.parse\<close> throws (an empty or cut-off file
  for instance), \<open>Json v\<close> for the parsed object \<open>v\<close>, whose absent fields read as
  undefined (\<open>None\<close>).
\<close>

datatype 'a json_source = Missing | Malformed | Json 'a

text \<open>
  What the server's code can throw or be rejected with. \<open>Error m\<close> is
  \<^verbatim>\<open>new Error(m)\<close> raised by the server itself; the others come from the runtime and the
  libraries.
\<close>

datatype js_error =
    Error string
  | SyntaxError
  | TypeError
  | FsError
  | AuthError

text \<open>The messages of the server's own errors, as UTF-8 bytes.\<close>

definition msg_no_auth :: string where
  "msg_no_auth = ''No hay autenticaci'' @ [CHR 0xC3, CHR 0xB3] @ ''n disponible''"

definition msg_token_invalid :: string where
  "msg_token_invalid =
     ''Token inv'' @ [CHR 0xC3, CHR 0xA1] @ ''lido, se requiere re-autenticaci'' @
     [CHR 0xC3, CHR 0xB3] @ ''n''"

definition msg_unknown_tool :: "string \<Rightarrow> string" where
  "msg_unknown_tool name = ''Herramienta desconocida: '' @ name"

text \<open>
  The credentials of an OAuth2 client (\<^verbatim>\<open>client.credentials\<close>). A field that is
  absent is \<open>None\<close>; \<open>expiry_date\<close> is in milliseconds since the epoch.
\<close>

record oauth_credentials =
  refresh_token :: "string option"
  access_token :: "string option"
  token_type :: "string option"
  expiry_date :: "int option"

text \<open>
  The object written to token.json: the credentials together with \<^verbatim>\<open>type\<close>,
  \<^verbatim>\<open>client_id\<close> and \<^verbatim>\<open>client_secret\<close>. The token read back (from the file or from
  \<^verbatim>\<open>GOOGLE_TOKEN\<close>) is an object of the same shape, of which only the four
  credential fields are read.
\<close>

record saved_token = oauth_credentials +
  payload_type :: "string option"
  payload_client_id :: "string option"
  payload_client_secret :: "string option"

text \<open>credentials.json: \<^verbatim>\<open>{installed: {...}}\<close> or \<^verbatim>\<open>{web: {...}}\<close>.\<close>

record key =
  client_id :: "string option"
  client_secret :: "string option"
  redirect_uris :: "string list option"

record keys =
  installed :: "key option"
  web :: "key option"

text \<open>
  The OAuth2 client: the three constructor arguments and its credentials
  (\<open>None\<close> when \<^verbatim>\<open>client.credentials\<close> is not set).
\<close>

record client =
  cl_client_id :: "string option"
  cl_client_secret :: "string option"
  cl_redirect_uri :: "string option"
  credentials :: "oauth_credentials option"

text \<open>
  How a rejected \<^verbatim>\<open>fs.writeFile\<close> fails: on opening the file, which is then left as
  it was, or after the opening, which has emptied the file.
\<close>

datatype write_failure = Refused_on_open | Failed_after_open

text \<open>
  The two files next to the server. \<open>token_writable\<close> tells whether
  \<^verbatim>\<open>fs.writeFile(TOKEN_PATH, ...)\<close> is accepted, and \<open>token_write_failure\<close> how it
  fails when it is not.
\<close>

record disk =
  token_json :: "saved_token json_source"
  credentials_json :: "keys json_source"
  token_writable :: bool
  token_write_failure :: write_failure

text \<open>The environment variables \<^verbatim>\<open>GOOGLE_TOKEN\<close> and \<^verbatim>\<open>GOOGLE_CREDENTIALS\<close>.\<close>

record env =
  GOOGLE_TOKEN :: "saved_token json_source"
  GOOGLE_CREDENTIALS :: "keys json_source"

text \<open>
  The collaborators outside the server: the token endpoint behind
  \<^verbatim>\<open>client.refreshAccessToken()\<close> and \<^verbatim>\<open>client.getAccessToken()\<close>, and the interactive
  grant \<^verbatim>\<open>authenticate({scopes, keyfilePath})\<close>. Each either answers or rejects.
\<close>

record remote =
  refreshAccessToken :: "client \<Rightarrow> js_error + oauth_credentials"
  getAccessToken :: "client \<Rightarrow> js_error + unit"
  authenticate :: "js_error + client"

text \<open>The calls that leave the server, in the order they are made.\<close>

datatype call =
    Call_refreshAccessToken
  | Call_getAccessToken
  | Call_authenticate
  | Call_saveCredentials
  | Call_writeFile saved_token

text \<open>
  The state the credential code works on: \<^verbatim>\<open>this.auth\<close>, the disk, and the calls made
  so far. Output on \<^verbatim>\<open>console.error\<close> is not modelled.
\<close>

record server =
  auth :: "client option"
  disk :: disk
  calls :: "call list"

subsection \<open>Loading\<close>

text \<open>\<^verbatim>\<open>JSON.parse(await fs.readFile(path))\<close>.\<close>

definition read_json :: "'a json_source \<Rightarrow> js_error + 'a" where
  "read_json src = (case src of Missing \<Rightarrow> Inl FsError | Malformed \<Rightarrow> Inl SyntaxError | Json v \<Rightarrow> Inr v)"

text \<open>\<^verbatim>\<open>keys.installed || keys.web\<close>.\<close>

definition installed_or_web :: "keys \<Rightarrow> key option" where
  "installed_or_web ks = (case installed ks of Some k \<Rightarrow> Some k | None \<Rightarrow> web ks)"

text \<open>
  \<^verbatim>\<open>new google.auth.OAuth2(key.client_id, key.client_secret, key.redirect_uris[0])\<close>
  followed by \<^verbatim>\<open>client.setCredentials({...})\<close> with the four fields of the token.
  Reading a property of an undefined \<^verbatim>\<open>key\<close> or \<^verbatim>\<open>key.redirect_uris\<close> throws a
  TypeError; element 0 of an empty array is undefined.
\<close>

definition new_client :: "keys \<Rightarrow> saved_token \<Rightarrow> js_error + client" where
  "new_client ks tok =
     (case installed_or_web ks of
        None \<Rightarrow> Inl TypeError
      | Some k \<Rightarrow>
          (case redirect_uris k of
             None \<Rightarrow> Inl TypeError
           | Some uris \<Rightarrow>
               Inr \<lparr>cl_client_id = client_id k,
                    cl_client_secret = client_secret k,
                    cl_redirect_uri = (case uris of [] \<Rightarrow> None | u # _ \<Rightarrow> Some u),
                    credentials =
                      Some \<lparr>refresh_token = refresh_token tok,
                            access_token = access_token tok,
                            token_type = token_type tok,
                            expiry_date = expiry_date tok\<rparr>\<rparr>))"

text \<open>The \<^verbatim>\<open>try\<close> block of \<^verbatim>\<open>loadSavedCredentialsIfExist\<close>.\<close>

definition load_try :: "env \<Rightarrow> disk \<Rightarrow> js_error + client" where
  "load_try e d =
     (case GOOGLE_TOKEN e of
        Json tok \<Rightarrow>
          (case (case GOOGLE_CREDENTIALS e of
                   Missing \<Rightarrow> read_json (credentials_json d)
                 | Malformed \<Rightarrow> Inl SyntaxError
                 | Json ks \<Rightarrow> Inr ks) of
             Inl err \<Rightarrow> Inl err
           | Inr ks \<Rightarrow> new_client ks tok)
      | Malformed \<Rightarrow> Inl SyntaxError
      | Missing \<Rightarrow>
          (case read_json (token_json d) of
             Inl err \<Rightarrow> Inl err
           | Inr tok \<Rightarrow>
               (case read_json (credentials_json d) of
                  Inl err \<Rightarrow> Inl err
                | Inr ks \<Rightarrow> new_client ks tok)))"

text \<open>
  \<^verbatim>\<open>loadSavedCredentialsIfExist\<close>: the \<^verbatim>\<open>catch (err)\<close> turns everything thrown in
  the block into \<^verbatim>\<open>null\<close>. The result type leaves room for a thrown error (\<open>Inl\<close>).
\<close>

definition loadSavedCredentialsIfExist :: "env \<Rightarrow> disk \<Rightarrow> js_error + client option" where
  "loadSavedCredentialsIfExist e d =
     (case load_try e d of Inl err \<Rightarrow> Inr None | Inr c \<Rightarrow> Inr (Some c))"

text \<open>
  The earlier variant of the server (src/unnamed/part_000, lines 58-66) reads only
  token.json and hands the parsed object to \<^verbatim>\<open>google.auth.JWT\<close>, here the parameter
  \<open>JWT\<close>; its \<^verbatim>\<open>catch\<close> is the same.
\<close>

definition loadSavedCredentialsIfExist_part000 ::
    "(saved_token \<Rightarrow> js_error + client) \<Rightarrow> disk \<Rightarrow> js_error + client option" where
  "loadSavedCredentialsIfExist_part000 JWT d =
     (case read_json (token_json d) of
        Inl err \<Rightarrow> Inr None
      | Inr tok \<Rightarrow> (case JWT tok of Inl err \<Rightarrow> Inr None | Inr c \<Rightarrow> Inr (Some c)))"

subsection \<open>Saving\<close>

text \<open>The object passed to \<^verbatim>\<open>JSON.stringify\<close> in \<^verbatim>\<open>saveCredentials\<close>.\<close>

definition payload :: "key \<Rightarrow> oauth_credentials \<Rightarrow> saved_token" where
  "payload k cr =
     \<lparr>refresh_token = refresh_token cr,
      access_token = access_token cr,
      token_type = token_type cr,
      expiry_date = expiry_date cr,
      payload_type = Some ''authorized_user'',
      payload_client_id = client_id k,
      payload_client_secret = client_secret k\<rparr>"

text \<open>
  \<^verbatim>\<open>await fs.writeFile(TOKEN_PATH, payload)\<close>. Node opens the file with flag
  \<^verbatim>\<open>'w'\<close>, which empties it, and then writes the text: a write that fails after the
  opening leaves an empty file, on which \<^verbatim>\<open>JSON.parse\<close> throws.
\<close>

definition writeFile_token :: "saved_token \<Rightarrow> server \<Rightarrow> (js_error + unit) \<times> server" where
  "writeFile_token p s =
     (if token_writable (disk s)
      then (Inr (), s\<lparr>disk := (disk s)\<lparr>token_json := Json p\<rparr>,
                      calls := calls s @ [Call_writeFile p]\<rparr>)
      else (case token_write_failure (disk s) of
              Refused_on_open \<Rightarrow> (Inl FsError, s\<lparr>calls := calls s @ [Call_writeFile p]\<rparr>)
            | Failed_after_open \<Rightarrow>
                (Inl FsError, s\<lparr>disk := (disk s)\<lparr>token_json := Malformed\<rparr>,
                               calls := calls s @ [Call_writeFile p]\<rparr>)))"

text \<open>
  \<^verbatim>\<open>saveCredentials(client)\<close>: read and parse credentials.json, build the payload
  (a TypeError when \<^verbatim>\<open>key\<close> or \<^verbatim>\<open>client.credentials\<close> is undefined), write token.json.
\<close>

definition saveCredentials :: "client \<Rightarrow> server \<Rightarrow> (js_error + unit) \<times> server" where
  "saveCredentials c s =
     (let s1 = s\<lparr>calls := calls s @ [Call_saveCredentials]\<rparr> in
      case read_json (credentials_json (disk s)) of
        Inl err \<Rightarrow> (Inl err, s1)
      | Inr ks \<Rightarrow>
          (case installed_or_web ks of
             None \<Rightarrow> (Inl TypeError, s1)
           | Some k \<Rightarrow>
               (case credentials c of
                  None \<Rightarrow> (Inl TypeError, s1)
                | Some cr \<Rightarrow> writeFile_token (payload k cr) s1)))"

text \<open>
  The variant of src/unnamed/part_000 (lines 68-79) writes \<^verbatim>\<open>type\<close>, \<^verbatim>\<open>client_id\<close>,
  \<^verbatim>\<open>client_secret\<close> and \<^verbatim>\<open>refresh_token\<close> only.
\<close>

definition payload_part000 :: "key \<Rightarrow> oauth_credentials \<Rightarrow> saved_token" where
  "payload_part000 k cr =
     \<lparr>refresh_token = refresh_token cr,
      access_token = None,
      token_type = None,
      expiry_date = None,
      payload_type = Some ''authorized_user'',
      payload_client_id = client_id k,
      payload_client_secret = client_secret k\<rparr>"

definition saveCredentials_part000 :: "client \<Rightarrow> server \<Rightarrow> (js_error + unit) \<times> server" where
  "saveCredentials_part000 c s =
     (let s1 = s\<lparr>calls := calls s @ [Call_saveCredentials]\<rparr> in
      case read_json (credentials_json (disk s)) of
        Inl err \<Rightarrow> (Inl err, s1)
      | Inr ks \<Rightarrow>
          (case installed_or_web ks of
             None \<Rightarrow> (Inl TypeError, s1)
           | Some k \<Rightarrow>
               (case credentials c of
                  None \<Rightarrow> (Inl TypeError, s1)
                | Some cr \<Rightarrow> writeFile_token (payload_part000 k cr) s1)))"

text \<open>
  The contents of the disk while \<^verbatim>\<open>saveCredentials\<close> runs, in order: the state a stop
  of the process can leave behind. The only write of the method is
  \<^verbatim>\<open>fs.writeFile(TOKEN_PATH, payload)\<close> on the token file itself; Node opens the file
  with flag \<^verbatim>\<open>'w'\<close>, which empties it, and then writes the text. An empty file is a
  text on which \<^verbatim>\<open>JSON.parse\<close> throws.
\<close>

definition saveCredentials_disk_states :: "client \<Rightarrow> disk \<Rightarrow> disk list" where
  "saveCredentials_disk_states c d =
     (case read_json (credentials_json d) of
        Inl err \<Rightarrow> [d]
      | Inr ks \<Rightarrow>
          (case installed_or_web ks of
             None \<Rightarrow> [d]
           | Some k \<Rightarrow>
               (case credentials c of
                  None \<Rightarrow> [d]
                | Some cr \<Rightarrow>
                    if token_writable d
                    then [d, d\<lparr>token_json := Malformed\<rparr>, d\<lparr>token_json := Json (payload k cr)\<rparr>]
                    else (case token_write_failure d of
                            Refused_on_open \<Rightarrow> [d]
                          | Failed_after_open \<Rightarrow> [d, d\<lparr>token_json := Malformed\<rparr>]))))"

subsection \<open>Keeping the token valid\<close>

text \<open>
  The body shared by the two \<^verbatim>\<open>try\<close> blocks of \<^verbatim>\<open>ensureValidToken\<close>:
  \<^verbatim>\<open>refreshAccessToken\<close>, \<^verbatim>\<open>this.auth.setCredentials(credentials)\<close>,
  \<^verbatim>\<open>saveCredentials(this.auth)\<close>.
\<close>

definition refresh_and_save :: "remote \<Rightarrow> client \<Rightarrow> server \<Rightarrow> (js_error + unit) \<times> server" where
  "refresh_and_save R c s =
     (let s1 = s\<lparr>calls := calls s @ [Call_refreshAccessToken]\<rparr> in
      case refreshAccessToken R c of
        Inl err \<Rightarrow> (Inl err, s1)
      | Inr cr' \<Rightarrow>
          (let c' = c\<lparr>credentials := Some cr'\<rparr>
           in saveCredentials c' (s1\<lparr>auth := Some c'\<rparr>)))"

text \<open>
  \<^verbatim>\<open>!expiry || expiry <= now\<close>: an absent expiry and the number 0 are falsy.
\<close>

definition expired :: "int option \<Rightarrow> int \<Rightarrow> bool" where
  "expired expiry now = (case expiry of None \<Rightarrow> True | Some x \<Rightarrow> x = 0 \<or> x \<le> now)"

text \<open>\<^verbatim>\<open>expiry - now < 5 * 60 * 1000\<close>, reached only when the expiry is a number.\<close>

definition expiring :: "int option \<Rightarrow> int \<Rightarrow> bool" where
  "expiring expiry now = (case expiry of None \<Rightarrow> False | Some x \<Rightarrow> x - now < 5 * 60 * 1000)"

text \<open>
  \<^verbatim>\<open>ensureValidToken()\<close> at time \<open>now\<close> (\<^verbatim>\<open>new Date().getTime()\<close>). \<open>Inl\<close> is a thrown
  error.
\<close>

definition ensureValidToken :: "remote \<Rightarrow> int \<Rightarrow> server \<Rightarrow> (js_error + unit) \<times> server" where
  "ensureValidToken R now s =
     (case auth s of
        None \<Rightarrow> (Inl (Error msg_no_auth), s)
      | Some c \<Rightarrow>
          (case credentials c of
             None \<Rightarrow> (Inl (Error msg_no_auth), s)
           | Some cr \<Rightarrow>
               if expired (expiry_date cr) now
               then (case refresh_and_save R c s of
                       (Inl err, s') \<Rightarrow> (Inl (Error msg_token_invalid), s')
                     | (Inr u, s') \<Rightarrow> (Inr (), s'))
               else if expiring (expiry_date cr) now
               then (Inr (), snd (refresh_and_save R c s))
               else (Inr (), s)))"

subsection \<open>The tool-call handler\<close>

text \<open>
  The result of a tool call. \<open>Error_text e\<close> stands for the text
  \<^verbatim>\<open>`Error: ${error.message}`\<close> of the error \<open>e\<close>.
\<close>

datatype tool_text = Text string | Error_text js_error

record tool_result =
  content :: tool_text
  isError :: bool

definition failed_result :: "js_error \<Rightarrow> tool_result" where
  "failed_result err = \<lparr>content = Error_text err, isError = True\<rparr>"

text \<open>The names of the \<^verbatim>\<open>switch\<close>.\<close>

definition tool_names :: "string list" where
  "tool_names =
     [''gmail_list_messages'', ''gmail_get_message'', ''gmail_send_message'',
      ''gmail_create_draft'', ''calendar_list_events'', ''calendar_create_event'',
      ''calendar_update_event'', ''calendar_delete_event'', ''calendar_find_free_slots'',
      ''docs_create'', ''docs_get'', ''docs_append_text'', ''docs_insert_text'',
      ''docs_replace_text'', ''docs_format_text'', ''docs_list_recent'', ''docs_share'',
      ''fit_get_activity_summary'', ''fit_record_activity_session'']"

text \<open>
  The handler of \<^verbatim>\<open>CallToolRequestSchema\<close>. \<open>methods name\<close> is the method the
  \<^verbatim>\<open>switch\<close> calls for \<open>name\<close>; it returns a result or throws. Whatever is thrown inside
  the \<^verbatim>\<open>try\<close> becomes a returned result with \<^verbatim>\<open>isError: true\<close>.
\<close>

definition callTool ::
    "remote \<Rightarrow> int \<Rightarrow> (string \<Rightarrow> server \<Rightarrow> (js_error + tool_result) \<times> server) \<Rightarrow>
     string \<Rightarrow> server \<Rightarrow> tool_result \<times> server" where
  "callTool R now methods name s =
     (case ensureValidToken R now s of
        (Inl err, s') \<Rightarrow> (failed_result err, s')
      | (Inr u, s') \<Rightarrow>
          if name \<in> set tool_names
          then (case methods name s' of
                  (Inl err, s'') \<Rightarrow> (failed_result err, s'')
                | (Inr res, s'') \<Rightarrow> (res, s''))
          else (failed_result (Error (msg_unknown_tool name)), s'))"

subsection \<open>Authorizing\<close>

text \<open>
  The second half of \<^verbatim>\<open>authorize\<close>: the interactive grant, then
  \<^verbatim>\<open>if (client.credentials) await this.saveCredentials(client)\<close>.
\<close>

definition interactive_grant :: "remote \<Rightarrow> server \<Rightarrow> (js_error + client) \<times> server" where
  "interactive_grant R s =
     (let s1 = s\<lparr>calls := calls s @ [Call_authenticate]\<rparr> in
      case authenticate R of
        Inl err \<Rightarrow> (Inl err, s1)
      | Inr c \<Rightarrow>
          (case credentials c of
             None \<Rightarrow> (Inr c, s1)
           | Some cr \<Rightarrow>
               (case saveCredentials c s1 of
                  (Inl err, s2) \<Rightarrow> (Inl err, s2)
                | (Inr u, s2) \<Rightarrow> (Inr c, s2))))"

text \<open>
  \<^verbatim>\<open>authorize()\<close>: a loaded client is probed with \<^verbatim>\<open>getAccessToken()\<close> and returned
  when the probe succeeds; otherwise the interactive grant runs.
\<close>

definition authorize :: "remote \<Rightarrow> env \<Rightarrow> server \<Rightarrow> (js_error + client) \<times> server" where
  "authorize R e s =
     (case loadSavedCredentialsIfExist e (disk s) of
        Inl err \<Rightarrow> (Inl err, s)
      | Inr None \<Rightarrow> interactive_grant R s
      | Inr (Some c) \<Rightarrow>
          (let s1 = s\<lparr>calls := calls s @ [Call_getAccessToken]\<rparr> in
           case getAccessToken R c of
             Inr u \<Rightarrow> (Inr c, s1)
           | Inl err \<Rightarrow> interactive_grant R s1))"

text \<open>The calls made between two states of the server.\<close>

definition new_calls :: "server \<Rightarrow> server \<Rightarrow> call list" where
  "new_calls s s' = drop (length (calls s)) (calls s')"

subsection \<open>Concrete data for the examples\<close>

definition key0 :: key where
  "key0 = \<lparr>client_id = Some ''id'', client_secret = Some ''secret'',
           redirect_uris = Some [''http://localhost'']\<rparr>"

definition keys0 :: keys where
  "keys0 = \<lparr>installed = Some key0, web = None\<rparr>"

definition creds0 :: "int option \<Rightarrow> oauth_credentials" where
  "creds0 expiry = \<lparr>refresh_token = Some ''r'', access_token = Some ''a'',
                    token_type = Some ''Bearer'', expiry_date = expiry\<rparr>"

definition client0 :: "int option \<Rightarrow> client" where
  "client0 expiry = \<lparr>cl_client_id = Some ''id'', cl_client_secret = Some ''secret'',
                     cl_redirect_uri = Some ''http://localhost'',
                     credentials = Some (creds0 expiry)\<rparr>"

definition disk0 :: "saved_token json_source \<Rightarrow> disk" where
  "disk0 tok = \<lparr>token_json = tok, credentials_json = Json keys0, token_writable = True,
                token_write_failure = Refused_on_open\<rparr>"

definition env0 :: env where
  "env0 = \<lparr>GOOGLE_TOKEN = Missing, GOOGLE_CREDENTIALS = Missing\<rparr>"

definition server0 :: "int option \<Rightarrow> server" where
  "server0 expiry =
     \<lparr>auth = Some (client0 expiry), disk = disk0 (Json (payload key0 (creds0 expiry))),
      calls = []\<rparr>"

text \<open>A remote whose token endpoint rejects every call, and one that answers \<open>cr\<close>.\<close>

definition remote_down :: remote where
  "remote_down = \<lparr>refreshAccessToken = (\<lambda>c. Inl AuthError),
                   getAccessToken = (\<lambda>c. Inl AuthError),
                   authenticate = Inl AuthError\<rparr>"

definition remote_up :: "oauth_credentials \<Rightarrow> remote" where
  "remote_up cr = \<lparr>refreshAccessToken = (\<lambda>c. Inr cr),
                    getAccessToken = (\<lambda>c. Inr ()),
                    authenticate = Inr (client0 (expiry_date cr))\<rparr>"

section \<open>The scenario of the specification\<close>

text \<open>
  C6. On any day (\<open>D\<close> is its midnight), for the window 09:00-17:00, a minimum of 30
  minutes and the busy intervals 10:00-10:15 and 12:00-13:00, \<open>findFreeSlots\<close> returns
  exactly 09:00-10:00 (60 minutes), 10:15-12:00 (105 minutes) and 13:00-17:00
  (240 minutes), in this order.
\<close>

theorem findFreeSlots_scenario:
  "findFreeSlots (D + 32400000) (D + 61200000) 30
     [timed (D + 36000000) (D + 36900000), timed (D + 43200000) (D + 46800000)] =
   [\<lparr>slot_start = D + 32400000, slot_end = D + 36000000, slot_duration = 60\<rparr>,
    \<lparr>slot_start = D + 36900000, slot_end = D + 43200000, slot_duration = 105\<rparr>,
    \<lparr>slot_start = D + 46800000, slot_end = D + 61200000, slot_duration = 240\<rparr>]"
  by (simp add: findFreeSlots_def slot_step_def timed_def)

section \<open>The free slots are the long gaps\<close>

lemma findFreeSlots_finish:
  "findFreeSlots ws we d evs = finish d we (slot_loop d (ws, []) evs)"
  by (simp add: findFreeSlots_def finish_def Let_def)

lemma chain_flat:
  "ws \<le> we \<Longrightarrow> \<forall>b\<in>set bs. ws \<le> fst b \<and> fst b \<le> snd b \<and> snd b \<le> we \<Longrightarrow>
   sorted_wrt (\<lambda>a b. snd a \<le> fst b) bs \<Longrightarrow> chain ws bs we"
  by (induction bs arbitrary: ws) auto

lemma slot_step_chain:
  "fst st \<le> new_Date (ev_start ev) \<Longrightarrow> new_Date (ev_start ev) \<le> new_Date (ev_end ev) \<Longrightarrow>
   slot_step d st ev =
     (new_Date (ev_end ev),
      if long_enough d (fst st, new_Date (ev_start ev))
      then snd st @ [\<lparr>slot_start = fst st, slot_end = new_Date (ev_start ev),
             slot_duration = (new_Date (ev_start ev) - fst st) div 60000\<rparr>]
      else snd st)"
  by (auto simp: slot_step_def Let_def long_enough_def)

lemma loop_gaps:
  "chain cur (map busy_of evs) hi \<Longrightarrow>
   map slot_span (finish d hi (slot_loop d (cur, acc) evs)) =
   map slot_span acc @ filter (long_enough d) (gaps cur (map busy_of evs) hi)"
proof (induction evs arbitrary: cur acc)
  case Nil
  then show ?case by (simp add: finish_def long_enough_def slot_span_def)
next
  case (Cons ev evs)
  then show ?case
    by (simp add: slot_step_chain busy_of_def slot_span_def)
qed

lemma chain_le: "chain lo bs hi \<Longrightarrow> lo \<le> hi"
proof (induction bs arbitrary: lo)
  case Nil
  then show ?case by simp
next
  case (Cons b bs)
  then have "snd b \<le> hi" by simp
  with Cons.prems show ?case by simp
qed

lemma gaps_cover:
  "chain lo bs hi \<Longrightarrow> \<Union>(span ` set (gaps lo bs hi)) \<union> \<Union>(span ` set bs) = {lo..<hi}"
proof (induction bs arbitrary: lo)
  case Nil
  then show ?case by (simp add: span_def)
next
  case (Cons b bs)
  let ?G = "\<Union>(span ` set (gaps (snd b) bs hi))"
  let ?B = "\<Union>(span ` set bs)"
  from Cons have ih: "?G \<union> ?B = {snd b..<hi}"
    and le: "lo \<le> fst b" "fst b \<le> snd b" by simp_all
  from Cons.prems have hi: "snd b \<le> hi" by (auto dest: chain_le)
  have "\<Union>(span ` set (gaps lo (b # bs) hi)) \<union> \<Union>(span ` set (b # bs)) =
        (span (lo, fst b) \<union> span b) \<union> (?G \<union> ?B)"
    by (simp add: Un_ac)
  also have "span (lo, fst b) \<union> span b = {lo..<snd b}"
    using le by (auto simp: span_def)
  also have "{lo..<snd b} \<union> (?G \<union> ?B) = {lo..<hi}"
    unfolding ih using le hi by auto
  finally show ?case .
qed

lemma gaps_busy_disjoint:
  "chain lo bs hi \<Longrightarrow> \<Union>(span ` set (gaps lo bs hi)) \<inter> \<Union>(span ` set bs) = {}"
proof (induction bs arbitrary: lo)
  case Nil
  then show ?case by simp
next
  case (Cons b bs)
  then have ih: "\<Union>(span ` set (gaps (snd b) bs hi)) \<inter> \<Union>(span ` set bs) = {}"
    and le: "lo \<le> fst b" "fst b \<le> snd b" and ch: "chain (snd b) bs hi" by simp_all
  from gaps_cover [OF ch]
  have sub: "\<Union>(span ` set (gaps (snd b) bs hi)) \<subseteq> {snd b..<hi}"
    "\<Union>(span ` set bs) \<subseteq> {snd b..<hi}" by auto
  have "span (lo, fst b) \<inter> span b = {}" by (auto simp: span_def)
  moreover have "span (lo, fst b) \<inter> \<Union>(span ` set bs) = {}"
    using sub(2) le by (auto simp: span_def)
  moreover have "\<Union>(span ` set (gaps (snd b) bs hi)) \<inter> span b = {}"
    using sub(1) by (auto simp: span_def)
  ultimately show ?case using ih by (simp add: Int_Un_distrib Int_Un_distrib2)
qed

lemma gaps_lower: "chain lo bs hi \<Longrightarrow> g \<in> set (gaps lo bs hi) \<Longrightarrow> lo \<le> fst g"
proof (induction bs arbitrary: lo)
  case Nil
  then show ?case by simp
next
  case (Cons b bs)
  then show ?case by fastforce
qed

lemma gaps_sorted:
  "chain lo bs hi \<Longrightarrow> sorted_wrt (\<lambda>a b. snd a \<le> fst b) (gaps lo bs hi)"
proof (induction bs arbitrary: lo)
  case Nil
  then show ?case by simp
next
  case (Cons b bs)
  then have "sorted_wrt (\<lambda>a b. snd a \<le> fst b) (gaps (snd b) bs hi)"
    and "\<forall>g\<in>set (gaps (snd b) bs hi). snd b \<le> fst g" and "fst b \<le> snd b"
    by (auto dest: gaps_lower)
  then show ?case by auto
qed

lemma slot_step_duration:
  "\<forall>f\<in>set (snd st). slot_duration f = (slot_end f - slot_start f) div 60000 \<Longrightarrow>
   \<forall>f\<in>set (snd (slot_step d st ev)). slot_duration f = (slot_end f - slot_start f) div 60000"
  by (simp add: slot_step_def Let_def)

lemma slot_loop_duration:
  "\<forall>f\<in>set (snd st). slot_duration f = (slot_end f - slot_start f) div 60000 \<Longrightarrow>
   \<forall>f\<in>set (snd (slot_loop d st evs)). slot_duration f = (slot_end f - slot_start f) div 60000"
proof (induction evs arbitrary: st)
  case Nil
  then show ?case by simp
next
  case (Cons ev evs)
  have "\<forall>f\<in>set (snd (slot_step d st ev)).
          slot_duration f = (slot_end f - slot_start f) div 60000"
    using Cons.prems by (rule slot_step_duration)
  then show ?case by (simp add: Cons.IH)
qed

lemma findFreeSlots_duration:
  "\<forall>f\<in>set (findFreeSlots ws we d evs). slot_duration f = (slot_end f - slot_start f) div 60000"
proof -
  have "\<forall>f\<in>set (snd (slot_loop d (ws, []) evs)).
          slot_duration f = (slot_end f - slot_start f) div 60000"
    by (rule slot_loop_duration) simp
  then show ?thesis by (simp add: findFreeSlots_finish finish_def)
qed

lemma span_filter_long:
  assumes "\<forall>g\<in>set gs. fst g = snd g \<or> long_enough d g"
  shows "\<Union>(span ` set (filter (long_enough d) gs)) = \<Union>(span ` set gs)"
  using assms by (auto simp: span_def)

text \<open>
  C5, as amended. Let the busy intervals of the events be inside the window, each one not
  ending before it starts, listed in order so that each ends no later than the next
  starts. Then the free slots \<open>findFreeSlots\<close> returns are, in order, exactly those gaps
  between the busy intervals (and the window's ends) that last at least \<open>duration\<close>
  minutes, each with its length in whole minutes; the gaps and the busy intervals
  together are the window, and no gap meets a busy interval; the free slots meet neither
  a busy interval nor one another. The free slots and the busy intervals together are
  the whole window when every gap that is not empty lasts at least \<open>duration\<close> minutes:
  a shorter gap is left out.
\<close>

theorem findFreeSlots_reconstruction:
  assumes win: "ws \<le> we"
    and inside: "\<forall>b\<in>set (map busy_of events). ws \<le> fst b \<and> fst b \<le> snd b \<and> snd b \<le> we"
    and ordered: "sorted_wrt (\<lambda>a b. snd a \<le> fst b) (map busy_of events)"
  shows "map slot_span (findFreeSlots ws we d events) =
           filter (long_enough d) (gaps ws (map busy_of events) we)
       \<and> (\<forall>f\<in>set (findFreeSlots ws we d events).
             slot_duration f = (slot_end f - slot_start f) div 60000)
       \<and> \<Union>(span ` set (gaps ws (map busy_of events) we)) \<union> \<Union>(span ` set (map busy_of events))
           = {ws..<we}
       \<and> \<Union>(span ` set (gaps ws (map busy_of events) we)) \<inter> \<Union>(span ` set (map busy_of events))
           = {}
       \<and> sorted_wrt (\<lambda>a b. snd a \<le> fst b) (gaps ws (map busy_of events) we)
       \<and> \<Union>(span ` set (map slot_span (findFreeSlots ws we d events)))
           \<inter> \<Union>(span ` set (map busy_of events)) = {}
       \<and> sorted_wrt (\<lambda>f g. slot_end f \<le> slot_start g) (findFreeSlots ws we d events)
       \<and> ((\<forall>g\<in>set (gaps ws (map busy_of events) we). fst g = snd g \<or> long_enough d g) \<longrightarrow>
            \<Union>(span ` set (map slot_span (findFreeSlots ws we d events)))
              \<union> \<Union>(span ` set (map busy_of events)) = {ws..<we})"
proof -
  let ?bs = "map busy_of events"
  let ?gs = "gaps ws ?bs we"
  let ?free = "findFreeSlots ws we d events"
  have ch: "chain ws ?bs we" using win inside ordered by (rule chain_flat)
  have eq: "map slot_span ?free = filter (long_enough d) ?gs"
    using loop_gaps [OF ch, of d "[]"] by (simp add: findFreeSlots_finish)
  have cover: "\<Union>(span ` set ?gs) \<union> \<Union>(span ` set ?bs) = {ws..<we}"
    using ch by (rule gaps_cover)
  have disj: "\<Union>(span ` set ?gs) \<inter> \<Union>(span ` set ?bs) = {}"
    using ch by (rule gaps_busy_disjoint)
  have srt: "sorted_wrt (\<lambda>a b. snd a \<le> fst b) ?gs"
    using ch by (rule gaps_sorted)
  have "\<Union>(span ` set (filter (long_enough d) ?gs)) \<subseteq> \<Union>(span ` set ?gs)" by auto
  with disj have fdisj: "\<Union>(span ` set (map slot_span ?free)) \<inter> \<Union>(span ` set ?bs) = {}"
    unfolding eq by blast
  have "sorted_wrt (\<lambda>a b. snd a \<le> fst b) (map slot_span ?free)"
    unfolding eq using srt by (rule sorted_wrt_filter)
  then have fsrt: "sorted_wrt (\<lambda>f g. slot_end f \<le> slot_start g) ?free"
    by (simp add: sorted_wrt_map slot_span_def)
  have exact: "\<Union>(span ` set (map slot_span ?free)) \<union> \<Union>(span ` set ?bs) = {ws..<we}"
    if "\<forall>g\<in>set ?gs. fst g = snd g \<or> long_enough d g"
    unfolding eq using span_filter_long [OF that] cover by simp
  have dur: "\<forall>f\<in>set ?free. slot_duration f = (slot_end f - slot_start f) div 60000"
    by (rule findFreeSlots_duration)
  show ?thesis
    apply (intro conjI impI)
           apply (rule eq)
          apply (rule dur)
         apply (rule cover)
        apply (rule disj)
       apply (rule srt)
      apply (rule fdisj)
     apply (rule fsrt)
    apply (erule exact)
    done
qed


theorem findFreeSlots_reconstruction_witness:
  "map slot_span (findFreeSlots 0 3600000 30 [timed 1800000 2400000]) = [(0, 1800000)]
   \<and> gaps 0 (map busy_of [timed 1800000 2400000]) 3600000 = [(0, 1800000), (2400000, 3600000)]"
proof -
  have h1: "(0::int) \<le> 3600000" by simp
  have h2: "\<forall>b\<in>set (map busy_of [timed 1800000 2400000]).
              0 \<le> fst b \<and> fst b \<le> snd b \<and> snd b \<le> 3600000"
    by (simp add: busy_of_def timed_def)
  have h3: "sorted_wrt (\<lambda>a b. snd a \<le> fst b) (map busy_of [timed 1800000 2400000])"
    by simp
  have "map slot_span (findFreeSlots 0 3600000 30 [timed 1800000 2400000]) =
        filter (long_enough 30) (gaps 0 (map busy_of [timed 1800000 2400000]) 3600000)"
    using findFreeSlots_reconstruction [OF h1 h2 h3, of 30] by (rule conjunct1)
  then show ?thesis
    by (simp add: busy_of_def timed_def long_enough_def)
qed

text \<open>
  C5, as stated, fails: for a window of one hour, a minimum of 30 minutes and one busy
  interval from minute 10 to the end of the window, no free slot is returned, and the
  first ten minutes of the window are in no interval.
\<close>

theorem findFreeSlots_reconstruction_counterexample:
  "findFreeSlots 0 3600000 30 [timed 600000 3600000] = []
   \<and> \<Union>(span ` set (map slot_span (findFreeSlots 0 3600000 30 [timed 600000 3600000])))
        \<union> \<Union>(span ` set (map busy_of [timed 600000 3600000])) \<noteq> {0..<3600000}"
proof -
  have e: "findFreeSlots 0 3600000 30 [timed 600000 3600000] = []"
    by (simp add: findFreeSlots_def slot_step_def timed_def)
  have "(0::int) \<in> {0..<3600000}" by simp
  moreover have "(0::int) \<notin> \<Union>(span ` set (map busy_of [timed 600000 3600000]))"
    by (simp add: busy_of_def timed_def span_def)
  ultimately show ?thesis unfolding e by auto
qed

section \<open>Overlapping busy intervals\<close>

lemma slot_step_overlap:
  assumes "0 \<le> d" and "new_Date (ev_start e2) < new_Date (ev_end e1)"
  shows "slot_step d (slot_step d st e1) e2 =
           (max (fst st) (max (new_Date (ev_end e1)) (new_Date (ev_end e2))),
            snd (slot_step d st e1))"
proof -
  have "fst (slot_step d st e1) = max (fst st) (new_Date (ev_end e1))"
    by (simp add: slot_step_def Let_def max_def)
  moreover have "\<not> (new_Date (ev_start e2) - max (fst st) (new_Date (ev_end e1)) \<ge> d * 60000)"
    using assms by (simp add: max_def)
  ultimately show ?thesis
    by (simp add: slot_step_def [of d "slot_step d st e1" e2] Let_def max_def)
qed

lemma slot_step_merged:
  assumes "0 \<le> d" and "new_Date (ev_start e2) < new_Date (ev_end e1)"
  shows "slot_step d (slot_step d st e1) e2 = slot_step d st (merged e1 e2)"
proof -
  have "slot_step d st (merged e1 e2) =
          (max (fst st) (max (new_Date (ev_end e1)) (new_Date (ev_end e2))),
           snd (slot_step d st e1))"
    by (simp add: slot_step_def merged_def Let_def max_def)
  with slot_step_overlap [OF assms] show ?thesis by simp
qed

lemma slot_loop_append:
  "slot_loop d st (xs @ ys) = slot_loop d (slot_loop d st xs) ys"
  by (induction xs arbitrary: st) simp_all

lemma gap_nonneg:
  "0 \<le> d \<Longrightarrow> d * 60000 \<le> (x::int) \<Longrightarrow> 0 \<le> x \<and> 0 \<le> x div 60000"
  by (simp add: pos_imp_zdiv_nonneg_iff)

lemma slot_loop_nonneg:
  "0 \<le> d \<Longrightarrow> list_all slot_nonneg (snd st) \<Longrightarrow> list_all slot_nonneg (snd (slot_loop d st evs))"
proof (induction evs arbitrary: st)
  case Nil
  then show ?case by simp
next
  case (Cons ev evs)
  have "list_all slot_nonneg (snd (slot_step d st ev))"
    using Cons.prems gap_nonneg [of d "new_Date (ev_start ev) - fst st"]
    by (simp add: slot_step_def Let_def slot_nonneg_def list_all_iff)
  with Cons.prems(1) show ?case by (simp add: Cons.IH)
qed

lemma findFreeSlots_nonneg:
  assumes "0 \<le> d"
  shows "list_all slot_nonneg (findFreeSlots ws we d evs)"
proof -
  have "list_all slot_nonneg (snd (slot_loop d (ws, []) evs))"
    using assms by (rule slot_loop_nonneg) simp
  with assms gap_nonneg [of d "we - fst (slot_loop d (ws, []) evs)"] show ?thesis
    by (simp add: findFreeSlots_finish finish_def slot_nonneg_def list_all_iff)
qed

lemma slot_step_behind:
  assumes "0 \<le> d" and "proper_event d ev" and "behind st"
  shows "behind (slot_step d st ev)"
proof (cases "new_Date (ev_start ev) - fst st \<ge> d * 60000")
  case True
  with assms(1,2) have "fst st < new_Date (ev_end ev)"
    by (auto simp: proper_event_def)
  moreover have "\<forall>f\<in>set (snd st). slot_start f < fst st"
    using assms(3) by (simp add: behind_def list_all_iff)
  ultimately show ?thesis
    using True assms(3) by (auto simp: slot_step_def Let_def behind_def list_all_iff)
next
  case False
  then show ?thesis
    using assms(3) by (auto simp: slot_step_def Let_def behind_def list_all_iff)
qed

lemma slot_loop_behind:
  "0 \<le> d \<Longrightarrow> list_all (proper_event d) evs \<Longrightarrow> behind st \<Longrightarrow> behind (slot_loop d st evs)"
proof (induction evs arbitrary: st)
  case Nil
  then show ?case by simp
next
  case (Cons ev evs)
  then have "behind (slot_step d st ev)" by (simp add: slot_step_behind)
  with Cons show ?case by simp
qed

lemma findFreeSlots_distinct:
  assumes "0 \<le> d" and "list_all (proper_event d) evs"
  shows "distinct (findFreeSlots ws we d evs)"
proof -
  have "behind (ws, [])" by (simp add: behind_def)
  with assms have "behind (slot_loop d (ws, []) evs)" by (rule slot_loop_behind)
  then show ?thesis
    by (auto simp: findFreeSlots_finish finish_def behind_def list_all_iff)
qed

text \<open>
  C7, as amended. Let the requested duration be non-negative and let two events that
  follow one another in the list overlap (the second starts before the first ends, which
  covers a second event contained in the first). Then handling the second event adds no
  free slot
  and leaves the cursor at the maximum of its former value and the two ends; the result
  is the one obtained with the two events replaced by the single event that spans both;
  no free slot of the result has a negative length or a negative duration; and the free
  slots of the result are pairwise different when no event ends before it starts (nor is
  empty, for a duration of zero).
\<close>

theorem findFreeSlots_overlap_merge:
  assumes d: "0 \<le> d" and ov: "overlapping (busy_of e1) (busy_of e2)"
  shows "snd (slot_step d (slot_step d st e1) e2) = snd (slot_step d st e1)
       \<and> fst (slot_step d (slot_step d st e1) e2) =
           max (fst st) (max (new_Date (ev_end e1)) (new_Date (ev_end e2)))
       \<and> findFreeSlots ws we d (pre @ e1 # e2 # post) =
           findFreeSlots ws we d (pre @ merged e1 e2 # post)
       \<and> list_all slot_nonneg (findFreeSlots ws we d (pre @ e1 # e2 # post))
       \<and> (list_all (proper_event d) (pre @ e1 # e2 # post) \<longrightarrow>
            distinct (findFreeSlots ws we d (pre @ e1 # e2 # post)))"
proof -
  from ov have lt: "new_Date (ev_start e2) < new_Date (ev_end e1)"
    by (simp add: overlapping_def busy_of_def)
  note two = slot_step_overlap [OF d lt]
  have mrg: "findFreeSlots ws we d (pre @ e1 # e2 # post) =
             findFreeSlots ws we d (pre @ merged e1 e2 # post)"
    by (simp add: findFreeSlots_finish slot_loop_append slot_step_merged [OF d lt])
  show ?thesis
    apply (intro conjI impI)
        apply (simp add: two)
       apply (simp add: two)
      apply (rule mrg)
     apply (rule findFreeSlots_nonneg [OF d])
    apply (erule findFreeSlots_distinct [OF d])
    done
qed

theorem findFreeSlots_overlap_merge_witness:
  "overlapping (busy_of (timed 600000 3000000)) (busy_of (timed 1200000 1800000))
   \<and> findFreeSlots 0 7200000 30 [timed 600000 3000000, timed 1200000 1800000] =
       findFreeSlots 0 7200000 30 [timed 600000 3000000]
   \<and> findFreeSlots 0 7200000 30 [timed 600000 3000000, timed 1200000 1800000] =
       [\<lparr>slot_start = 3000000, slot_end = 7200000, slot_duration = 70\<rparr>]"
proof -
  have h1: "(0::int) \<le> 30" by simp
  have h2: "overlapping (busy_of (timed 600000 3000000)) (busy_of (timed 1200000 1800000))"
    by (simp add: overlapping_def busy_of_def timed_def)
  show ?thesis
    using h2 findFreeSlots_overlap_merge [OF h1 h2, of "(0, [])" 0 7200000 "[]" "[]"]
    by (simp add: merged_def timed_def findFreeSlots_def slot_step_def)
qed

text \<open>
  C7, as stated, fails: nothing checks the sign of the requested duration. For a
  duration of -20 minutes and two overlapping events listed by start time (0 to 40
  minutes, then 39 minutes 50 seconds to 40 minutes), the test of the second event
  compares a gap of -10 seconds with -20 minutes and lets it through: a free slot that
  runs backwards, of duration -1, is returned between the two events.
\<close>

theorem findFreeSlots_negative_duration_counterexample:
  "overlapping (busy_of (timed 0 2400000)) (busy_of (timed 2390000 2400000))
   \<and> findFreeSlots 0 3600000 (- 20) [timed 0 2400000, timed 2390000 2400000] =
       [\<lparr>slot_start = 0, slot_end = 0, slot_duration = 0\<rparr>,
        \<lparr>slot_start = 2400000, slot_end = 2390000, slot_duration = - 1\<rparr>,
        \<lparr>slot_start = 2400000, slot_end = 3600000, slot_duration = 20\<rparr>]"
  by (simp add: overlapping_def busy_of_def findFreeSlots_def slot_step_def timed_def)

section \<open>Properties of the credential lifecycle\<close>

subsection \<open>The calls made by saving and refreshing\<close>

lemma writeFile_token_calls:
  "calls (snd (writeFile_token p s)) = calls s @ [Call_writeFile p]"
  by (simp add: writeFile_token_def split: write_failure.splits)

lemma writeFile_token_rejected:
  "\<not> token_writable (disk s) \<Longrightarrow>
   fst (writeFile_token p s) = Inl FsError
   \<and> token_json (disk (snd (writeFile_token p s))) =
       (case token_write_failure (disk s) of
          Refused_on_open \<Rightarrow> token_json (disk s)
        | Failed_after_open \<Rightarrow> Malformed)"
  by (simp add: writeFile_token_def split: write_failure.splits)

lemma saveCredentials_calls:
  "\<exists>ws. calls (snd (saveCredentials c s)) = calls s @ Call_saveCredentials # ws
        \<and> Call_authenticate \<notin> set ws \<and> Call_saveCredentials \<notin> set ws"
  by (auto simp: saveCredentials_def writeFile_token_def Let_def read_json_def
      split: json_source.splits option.splits write_failure.splits)

lemma saveCredentials_ok:
  assumes "credentials_json (disk s) = Json ks" and "installed_or_web ks = Some k"
    and "credentials c = Some cr" and "token_writable (disk s)"
  shows "saveCredentials c s =
           (Inr (), s\<lparr>disk := (disk s)\<lparr>token_json := Json (payload k cr)\<rparr>,
                      calls := calls s @ [Call_saveCredentials, Call_writeFile (payload k cr)]\<rparr>)"
  using assms by (simp add: saveCredentials_def writeFile_token_def Let_def read_json_def)

lemma saveCredentials_disk:
  "disk (snd (saveCredentials c s)) = last (saveCredentials_disk_states c (disk s))"
  by (simp add: saveCredentials_def saveCredentials_disk_states_def writeFile_token_def
      Let_def read_json_def split: json_source.splits option.splits write_failure.splits)

lemma refresh_and_save_calls:
  "\<exists>ws. calls (snd (refresh_and_save R c s)) = calls s @ Call_refreshAccessToken # ws"
proof (cases "refreshAccessToken R c")
  case (Inl err)
  then show ?thesis by (simp add: refresh_and_save_def Let_def)
next
  case (Inr cr')
  let ?c = "c\<lparr>credentials := Some cr'\<rparr>"
  let ?s = "s\<lparr>calls := calls s @ [Call_refreshAccessToken], auth := Some ?c\<rparr>"
  from saveCredentials_calls [of ?c ?s]
  obtain ws where "calls (snd (saveCredentials ?c ?s)) = calls ?s @ Call_saveCredentials # ws"
    by blast
  with Inr show ?thesis by (simp add: refresh_and_save_def Let_def)
qed

lemma refresh_and_save_rejected:
  "refreshAccessToken R c = Inl err \<Longrightarrow>
   refresh_and_save R c s = (Inl err, s\<lparr>calls := calls s @ [Call_refreshAccessToken]\<rparr>)"
  by (simp add: refresh_and_save_def Let_def)


subsection \<open>No authenticated client\<close>

text \<open>
  C10. When \<^verbatim>\<open>this.auth\<close> is null, or its \<^verbatim>\<open>credentials\<close> are absent,
  \<open>ensureValidToken\<close> throws the error "No hay autenticacion disponible" and leaves the
  whole state as it was: no refresh is attempted (no call is recorded), the client is not
  changed and the token file is not written.
\<close>

theorem ensureValidToken_no_auth:
  assumes "auth s = None \<or> (\<exists>c. auth s = Some c \<and> credentials c = None)"
  shows "ensureValidToken R now s = (Inl (Error msg_no_auth), s)"
  using assms by (auto simp: ensureValidToken_def)

theorem ensureValidToken_no_auth_witness:
  "ensureValidToken (remote_up (creds0 (Some 5000))) 1000
     \<lparr>auth = None, disk = disk0 Missing, calls = []\<rparr> =
   (Inl (Error msg_no_auth), \<lparr>auth = None, disk = disk0 Missing, calls = []\<rparr>)"
proof -
  have h: "auth \<lparr>auth = None, disk = disk0 Missing, calls = []\<rparr> = None
           \<or> (\<exists>c. auth \<lparr>auth = None, disk = disk0 Missing, calls = []\<rparr> = Some c
                  \<and> credentials c = None)"
    by simp
  show ?thesis by (rule ensureValidToken_no_auth [OF h])
qed

subsection \<open>An expired token\<close>

text \<open>
  C1. When the expiry of the credentials is absent or not later than \<open>now\<close>,
  \<open>ensureValidToken\<close> first calls \<open>refreshAccessToken\<close>, and it returns normally only
  if that call answered. If the call is rejected, \<open>ensureValidToken\<close> throws the error
  "Token invalido, se requiere re-autenticacion", and the tool-call handler returns a
  result with \<open>isError\<close> set that carries this error, whatever the tool: the tool's
  method is not run and nothing is thrown out of the handler.
\<close>

theorem ensureValidToken_expired:
  assumes "auth s = Some c" and "credentials c = Some cr"
    and "expiry_date cr = None \<or> (\<exists>x. expiry_date cr = Some x \<and> x \<le> now)"
  shows "(\<exists>ws. calls (snd (ensureValidToken R now s)) = calls s @ Call_refreshAccessToken # ws)
       \<and> (fst (ensureValidToken R now s) = Inr () \<longrightarrow> (\<exists>cr'. refreshAccessToken R c = Inr cr'))
       \<and> (\<forall>err. refreshAccessToken R c = Inl err \<longrightarrow>
             ensureValidToken R now s =
               (Inl (Error msg_token_invalid), s\<lparr>calls := calls s @ [Call_refreshAccessToken]\<rparr>)
           \<and> callTool R now methods name s =
               (\<lparr>content = Error_text (Error msg_token_invalid), isError = True\<rparr>,
                s\<lparr>calls := calls s @ [Call_refreshAccessToken]\<rparr>))"
proof -
  from assms(3) have ex: "expired (expiry_date cr) now"
    by (auto simp: expired_def)
  have ev: "ensureValidToken R now s =
              (case refresh_and_save R c s of
                 (Inl err, s') \<Rightarrow> (Inl (Error msg_token_invalid), s')
               | (Inr u, s') \<Rightarrow> (Inr (), s'))"
    using assms(1,2) ex by (simp add: ensureValidToken_def)
  have sn: "snd (ensureValidToken R now s) = snd (refresh_and_save R c s)"
    unfolding ev by (simp split: prod.splits sum.splits)
  have a: "\<exists>ws. calls (snd (ensureValidToken R now s)) = calls s @ Call_refreshAccessToken # ws"
    unfolding sn by (rule refresh_and_save_calls)
  have b: "\<exists>cr'. refreshAccessToken R c = Inr cr'" if "fst (ensureValidToken R now s) = Inr ()"
  proof (cases "refreshAccessToken R c")
    case (Inl err)
    with that show ?thesis by (simp add: ev refresh_and_save_rejected)
  next
    case (Inr cr')
    then show ?thesis by blast
  qed
  have c: "ensureValidToken R now s =
             (Inl (Error msg_token_invalid), s\<lparr>calls := calls s @ [Call_refreshAccessToken]\<rparr>)
           \<and> callTool R now methods name s =
               (\<lparr>content = Error_text (Error msg_token_invalid), isError = True\<rparr>,
                s\<lparr>calls := calls s @ [Call_refreshAccessToken]\<rparr>)"
    if "refreshAccessToken R c = Inl err" for err
  proof -
    from that have "ensureValidToken R now s =
        (Inl (Error msg_token_invalid), s\<lparr>calls := calls s @ [Call_refreshAccessToken]\<rparr>)"
      by (simp add: ev refresh_and_save_rejected)
    then show ?thesis by (simp add: callTool_def failed_result_def)
  qed
  from a b c show ?thesis by blast
qed

theorem ensureValidToken_expired_witness:
  "ensureValidToken remote_down 2000 (server0 (Some 1000)) =
     (Inl (Error msg_token_invalid), (server0 (Some 1000))\<lparr>calls := [Call_refreshAccessToken]\<rparr>)
   \<and> callTool remote_down 2000 (\<lambda>name s. (Inr \<lparr>content = Text ''ok'', isError = False\<rparr>, s))
        ''gmail_list_messages'' (server0 (Some 1000)) =
     (\<lparr>content = Error_text (Error msg_token_invalid), isError = True\<rparr>,
      (server0 (Some 1000))\<lparr>calls := [Call_refreshAccessToken]\<rparr>)"
proof -
  have h1: "auth (server0 (Some 1000)) = Some (client0 (Some 1000))"
    by (simp add: server0_def)
  have h2: "credentials (client0 (Some 1000)) = Some (creds0 (Some 1000))"
    by (simp add: client0_def)
  have h3: "expiry_date (creds0 (Some 1000)) = None
            \<or> (\<exists>x. expiry_date (creds0 (Some 1000)) = Some x \<and> x \<le> 2000)"
    by (simp add: creds0_def)
  have h4: "refreshAccessToken remote_down (client0 (Some 1000)) = Inl AuthError"
    by (simp add: remote_down_def)
  have h5: "calls (server0 (Some 1000)) = []"
    by (simp add: server0_def)
  show ?thesis
    using ensureValidToken_expired [OF h1 h2 h3, of remote_down
        "\<lambda>name s. (Inr \<lparr>content = Text ''ok'', isError = False\<rparr>, s)" "''gmail_list_messages''"]
      h4 h5
    by simp
qed

subsection \<open>A token about to expire\<close>

text \<open>
  C2. When the expiry lies strictly between \<open>now\<close> and \<open>now\<close> plus five minutes (the
  clock being after the epoch), \<open>ensureValidToken\<close> calls \<open>refreshAccessToken\<close> and
  returns normally whatever happens; when the call is rejected, the client, its
  credentials and the token file are left as they were.
\<close>

theorem ensureValidToken_expiring:
  assumes "auth s = Some c" and "credentials c = Some cr" and "expiry_date cr = Some x"
    and "0 \<le> now" and "now < x" and "x < now + 5 * 60 * 1000"
  shows "fst (ensureValidToken R now s) = Inr ()
       \<and> (\<exists>ws. calls (snd (ensureValidToken R now s)) = calls s @ Call_refreshAccessToken # ws)
       \<and> (\<forall>err. refreshAccessToken R c = Inl err \<longrightarrow>
             ensureValidToken R now s =
               (Inr (), s\<lparr>calls := calls s @ [Call_refreshAccessToken]\<rparr>))"
proof -
  from assms(3-6) have "\<not> expired (expiry_date cr) now" and "expiring (expiry_date cr) now"
    by (simp_all add: expired_def expiring_def)
  with assms(1,2)
  have ev: "ensureValidToken R now s = (Inr (), snd (refresh_and_save R c s))"
    by (simp add: ensureValidToken_def)
  have a: "\<exists>ws. calls (snd (ensureValidToken R now s)) = calls s @ Call_refreshAccessToken # ws"
    unfolding ev using refresh_and_save_calls [of R c s] by simp
  have b: "ensureValidToken R now s = (Inr (), s\<lparr>calls := calls s @ [Call_refreshAccessToken]\<rparr>)"
    if "refreshAccessToken R c = Inl err" for err
    using that by (simp add: ev refresh_and_save_rejected)
  from ev a b show ?thesis by simp
qed

theorem ensureValidToken_expiring_witness:
  "ensureValidToken remote_down 1000000 (server0 (Some 1200000)) =
     (Inr (), (server0 (Some 1200000))\<lparr>calls := [Call_refreshAccessToken]\<rparr>)"
proof -
  have h1: "auth (server0 (Some 1200000)) = Some (client0 (Some 1200000))"
    by (simp add: server0_def)
  have h2: "credentials (client0 (Some 1200000)) = Some (creds0 (Some 1200000))"
    by (simp add: client0_def)
  have h3: "expiry_date (creds0 (Some 1200000)) = Some 1200000"
    by (simp add: creds0_def)
  have h4: "(0::int) \<le> 1000000" and h5: "(1000000::int) < 1200000"
    and h6: "(1200000::int) < 1000000 + 5 * 60 * 1000"
    by simp_all
  have h7: "refreshAccessToken remote_down (client0 (Some 1200000)) = Inl AuthError"
    by (simp add: remote_down_def)
  have h8: "calls (server0 (Some 1200000)) = []"
    by (simp add: server0_def)
  show ?thesis
    using ensureValidToken_expiring [OF h1 h2 h3 h4 h5 h6, of remote_down] h7 h8
    by simp
qed

subsection \<open>Loading never throws\<close>

lemma load_try_token_missing:
  "GOOGLE_TOKEN e = Missing \<Longrightarrow> token_json d = Missing \<Longrightarrow> load_try e d = Inl FsError"
  by (simp add: load_try_def read_json_def)

lemma load_try_token_malformed:
  "GOOGLE_TOKEN e = Malformed \<or> (GOOGLE_TOKEN e = Missing \<and> token_json d = Malformed) \<Longrightarrow>
   load_try e d = Inl SyntaxError"
  by (auto simp: load_try_def read_json_def)

lemma load_try_keys_malformed:
  "GOOGLE_CREDENTIALS e = Missing \<or> GOOGLE_TOKEN e = Missing \<Longrightarrow>
   credentials_json d = Malformed \<Longrightarrow> \<exists>err. load_try e d = Inl err"
  by (auto simp: load_try_def read_json_def split: json_source.splits)

lemma load_try_env_keys_malformed:
  "GOOGLE_TOKEN e = Json tok \<Longrightarrow> GOOGLE_CREDENTIALS e = Malformed \<Longrightarrow>
   load_try e d = Inl SyntaxError"
  by (simp add: load_try_def)

text \<open>
  C3, as amended. \<open>loadSavedCredentialsIfExist\<close> never throws: it always returns, a
  client or null. It returns null when no token is there (no \<^verbatim>\<open>GOOGLE_TOKEN\<close> and no
  token file), and also when a source is there but malformed: a malformed
  \<^verbatim>\<open>GOOGLE_TOKEN\<close>, a malformed token file, a malformed \<^verbatim>\<open>GOOGLE_CREDENTIALS\<close> next to
  a token from the environment, or a malformed credentials.json when it is the key source
  read. The earlier variant of part_000 never throws either.
\<close>

theorem loadSavedCredentialsIfExist_total:
  "(\<exists>r. loadSavedCredentialsIfExist e d = Inr r)
   \<and> (GOOGLE_TOKEN e = Missing \<and> token_json d = Missing \<longrightarrow>
        loadSavedCredentialsIfExist e d = Inr None)
   \<and> (GOOGLE_TOKEN e = Malformed \<or> (GOOGLE_TOKEN e = Missing \<and> token_json d = Malformed) \<longrightarrow>
        loadSavedCredentialsIfExist e d = Inr None)
   \<and> ((\<exists>tok. GOOGLE_TOKEN e = Json tok) \<and> GOOGLE_CREDENTIALS e = Malformed \<longrightarrow>
        loadSavedCredentialsIfExist e d = Inr None)
   \<and> ((GOOGLE_CREDENTIALS e = Missing \<or> GOOGLE_TOKEN e = Missing) \<and> credentials_json d = Malformed \<longrightarrow>
        loadSavedCredentialsIfExist e d = Inr None)
   \<and> (\<exists>r. loadSavedCredentialsIfExist_part000 JWT d = Inr r)"
proof -
  have a: "\<exists>r. loadSavedCredentialsIfExist e d = Inr r"
    by (simp add: loadSavedCredentialsIfExist_def split: sum.splits)
  have b: "loadSavedCredentialsIfExist e d = Inr None"
    if "GOOGLE_TOKEN e = Missing \<and> token_json d = Missing"
    using that by (simp add: loadSavedCredentialsIfExist_def load_try_token_missing)
  have c: "loadSavedCredentialsIfExist e d = Inr None"
    if "GOOGLE_TOKEN e = Malformed \<or> (GOOGLE_TOKEN e = Missing \<and> token_json d = Malformed)"
    using load_try_token_malformed [OF that] by (simp add: loadSavedCredentialsIfExist_def)
  have d: "loadSavedCredentialsIfExist e d = Inr None"
    if "(\<exists>tok. GOOGLE_TOKEN e = Json tok) \<and> GOOGLE_CREDENTIALS e = Malformed"
    using that by (auto simp: loadSavedCredentialsIfExist_def load_try_env_keys_malformed)
  have f: "loadSavedCredentialsIfExist e d = Inr None"
    if "(GOOGLE_CREDENTIALS e = Missing \<or> GOOGLE_TOKEN e = Missing) \<and> credentials_json d = Malformed"
  proof -
    from that obtain err where "load_try e d = Inl err"
      using load_try_keys_malformed [of e d] by blast
    then show ?thesis by (simp add: loadSavedCredentialsIfExist_def)
  qed
  have g: "\<exists>r. loadSavedCredentialsIfExist_part000 JWT d = Inr r"
    by (simp add: loadSavedCredentialsIfExist_part000_def split: sum.splits)
  from a b c d f g show ?thesis by blast
qed

theorem loadSavedCredentialsIfExist_total_witness:
  "loadSavedCredentialsIfExist env0 (disk0 Missing) = Inr None
   \<and> loadSavedCredentialsIfExist env0
        \<lparr>token_json = Json (payload key0 (creds0 (Some 1000))), credentials_json = Malformed,
         token_writable = True, token_write_failure = Refused_on_open\<rparr> = Inr None"
proof -
  have h1: "GOOGLE_TOKEN env0 = Missing \<and> token_json (disk0 Missing) = Missing"
    by (simp add: env0_def disk0_def)
  have h2: "(GOOGLE_CREDENTIALS env0 = Missing \<or> GOOGLE_TOKEN env0 = Missing)
            \<and> credentials_json
                \<lparr>token_json = Json (payload key0 (creds0 (Some 1000))),
                 credentials_json = Malformed, token_writable = True,
                 token_write_failure = Refused_on_open\<rparr> = Malformed"
    by (simp add: env0_def)
  from h1 loadSavedCredentialsIfExist_total [of env0 "disk0 Missing"]
  have a: "loadSavedCredentialsIfExist env0 (disk0 Missing) = Inr None" by blast
  from h2 loadSavedCredentialsIfExist_total [of env0
      "\<lparr>token_json = Json (payload key0 (creds0 (Some 1000))), credentials_json = Malformed,
        token_writable = True, token_write_failure = Refused_on_open\<rparr>"]
  have b: "loadSavedCredentialsIfExist env0
        \<lparr>token_json = Json (payload key0 (creds0 (Some 1000))), credentials_json = Malformed,
         token_writable = True, token_write_failure = Refused_on_open\<rparr> = Inr None" by blast
  from a b show ?thesis by simp
qed

text \<open>
  C3, as stated, fails: with no environment override and a token file that exists but is
  not valid JSON, \<open>loadSavedCredentialsIfExist\<close> returns null; nothing is thrown.
\<close>

theorem loadSavedCredentialsIfExist_malformed_counterexample:
  "token_json (disk0 Malformed) = Malformed
   \<and> loadSavedCredentialsIfExist env0 (disk0 Malformed) = Inr None"
  by (simp add: loadSavedCredentialsIfExist_def load_try_def read_json_def env0_def disk0_def)

subsection \<open>When authorizing saves\<close>

lemma new_calls_append: "calls s' = calls s @ ws \<Longrightarrow> new_calls s s' = ws"
  by (simp add: new_calls_def)

lemma interactive_grant_calls:
  assumes "interactive_grant R s = (Inr c, s')"
  shows "\<exists>ws. calls s' = calls s @ Call_authenticate # ws
             \<and> (Call_saveCredentials \<in> set ws \<longleftrightarrow> credentials c \<noteq> None)"
proof (cases "authenticate R")
  case (Inl err)
  with assms show ?thesis by (simp add: interactive_grant_def Let_def)
next
  case (Inr c')
  let ?s1 = "s\<lparr>calls := calls s @ [Call_authenticate]\<rparr>"
  show ?thesis
  proof (cases "credentials c'")
    case None
    with Inr assms show ?thesis by (auto simp: interactive_grant_def Let_def)
  next
    case (Some cr)
    obtain ws where ws: "calls (snd (saveCredentials c' ?s1)) = calls ?s1 @ Call_saveCredentials # ws"
      using saveCredentials_calls [of c' ?s1] by blast
    from Inr Some assms have "c = c'" and "s' = snd (saveCredentials c' ?s1)"
      by (auto simp: interactive_grant_def Let_def split: prod.splits sum.splits)
    with ws Some show ?thesis by simp
  qed
qed

text \<open>
  C4, as amended. When \<open>authorize\<close> returns a client, \<open>saveCredentials\<close> has been called
  before the return exactly when the client comes from the interactive grant and carries
  credentials. When the interactive grant was not run, the client is the loaded one, it
  passed the \<open>getAccessToken\<close> probe, and \<open>authorize\<close> returns it after that single call:
  \<open>saveCredentials\<close> is not called and the disk is left as it was.
\<close>

theorem authorize_saves:
  assumes "authorize R e s = (Inr c, s')"
  shows "(Call_saveCredentials \<in> set (new_calls s s') \<longleftrightarrow>
            Call_authenticate \<in> set (new_calls s s') \<and> credentials c \<noteq> None)
       \<and> (Call_authenticate \<notin> set (new_calls s s') \<longrightarrow>
            loadSavedCredentialsIfExist e (disk s) = Inr (Some c)
            \<and> getAccessToken R c = Inr ()
            \<and> s' = s\<lparr>calls := calls s @ [Call_getAccessToken]\<rparr>)"
proof (cases "loadSavedCredentialsIfExist e (disk s)")
  case (Inl err)
  with assms show ?thesis by (simp add: authorize_def)
next
  case (Inr r)
  show ?thesis
  proof (cases r)
    case None
    with Inr assms have "interactive_grant R s = (Inr c, s')"
      by (simp add: authorize_def)
    from interactive_grant_calls [OF this] obtain ws
      where "calls s' = calls s @ Call_authenticate # ws"
        and "Call_saveCredentials \<in> set ws \<longleftrightarrow> credentials c \<noteq> None" by blast
    then show ?thesis by (simp add: new_calls_def)
  next
    case (Some c0)
    let ?s1 = "s\<lparr>calls := calls s @ [Call_getAccessToken]\<rparr>"
    show ?thesis
    proof (cases "getAccessToken R c0")
      case (Inl err)
      with Inr Some assms have "interactive_grant R ?s1 = (Inr c, s')"
        by (simp add: authorize_def Let_def)
      from interactive_grant_calls [OF this] obtain ws
        where "calls s' = calls s @ Call_getAccessToken # Call_authenticate # ws"
          and "Call_saveCredentials \<in> set ws \<longleftrightarrow> credentials c \<noteq> None" by auto
      then show ?thesis by (simp add: new_calls_def)
    next
      case (Inr u)
      with \<open>loadSavedCredentialsIfExist e (disk s) = Inr r\<close> Some assms
      have "c = c0" and "s' = ?s1" by (simp_all add: authorize_def Let_def)
      with Inr Some \<open>loadSavedCredentialsIfExist e (disk s) = Inr r\<close>
      show ?thesis by (simp add: new_calls_def)
    qed
  qed
qed

theorem authorize_saves_witness:
  "authorize (remote_up (creds0 (Some 5000))) env0
     \<lparr>auth = None, disk = disk0 Missing, calls = []\<rparr> =
   (Inr (client0 (Some 5000)),
    \<lparr>auth = None, disk = disk0 (Json (payload key0 (creds0 (Some 5000)))),
     calls = [Call_authenticate, Call_saveCredentials,
              Call_writeFile (payload key0 (creds0 (Some 5000)))]\<rparr>)
   \<and> Call_saveCredentials \<in> set (new_calls \<lparr>auth = None, disk = disk0 Missing, calls = []\<rparr>
        \<lparr>auth = None, disk = disk0 (Json (payload key0 (creds0 (Some 5000)))),
         calls = [Call_authenticate, Call_saveCredentials,
                  Call_writeFile (payload key0 (creds0 (Some 5000)))]\<rparr>)"
proof -
  have h: "authorize (remote_up (creds0 (Some 5000))) env0
             \<lparr>auth = None, disk = disk0 Missing, calls = []\<rparr> =
           (Inr (client0 (Some 5000)),
            \<lparr>auth = None, disk = disk0 (Json (payload key0 (creds0 (Some 5000)))),
             calls = [Call_authenticate, Call_saveCredentials,
                      Call_writeFile (payload key0 (creds0 (Some 5000)))]\<rparr>)"
    by (simp add: authorize_def loadSavedCredentialsIfExist_def load_try_def read_json_def
        interactive_grant_def saveCredentials_def writeFile_token_def installed_or_web_def
        env0_def disk0_def remote_up_def client0_def creds0_def keys0_def Let_def)
  show ?thesis
    using h authorize_saves [OF h]
    by (simp add: new_calls_def client0_def)
qed

text \<open>
  C4, as stated, fails: with a saved token on disk that passes the probe, \<open>authorize\<close>
  returns the loaded client after the single call \<open>getAccessToken\<close>; \<open>saveCredentials\<close>
  is not called.
\<close>

theorem authorize_loaded_counterexample:
  "authorize (remote_up (creds0 (Some 5000))) env0 (server0 (Some 1000)) =
     (Inr (client0 (Some 1000)), (server0 (Some 1000))\<lparr>calls := [Call_getAccessToken]\<rparr>)
   \<and> Call_saveCredentials \<notin>
       set (calls (snd (authorize (remote_up (creds0 (Some 5000))) env0 (server0 (Some 1000)))))"
  by (simp add: authorize_def loadSavedCredentialsIfExist_def load_try_def read_json_def
      new_client_def installed_or_web_def payload_def
      env0_def server0_def disk0_def remote_up_def client0_def creds0_def keys0_def key0_def Let_def)

subsection \<open>What a refresh persists\<close>




subsection \<open>What saving writes, and how\<close>

text \<open>
  C9, as amended. When credentials.json can be read, the client has credentials and the
  write is accepted, \<open>saveCredentials\<close> writes to the token file the refresh token, the
  access token, the token type and the expiry of the client's credentials, together with
  the client identifier and secret of credentials.json and the type "authorized_user".
  It does so with the single call \<^verbatim>\<open>fs.writeFile(TOKEN_PATH, payload)\<close> on the token
  file itself: neither a temporary file nor a rename is used, and between the opening and
  the writing the token file is empty. The variant of part_000 writes the refresh token,
  the client identifier and secret and the type only.
\<close>

theorem saveCredentials_writes_payload:
  assumes "credentials_json (disk s) = Json ks" and "installed_or_web ks = Some k"
    and "credentials c = Some cr" and "token_writable (disk s)"
  shows "saveCredentials c s =
           (Inr (), s\<lparr>disk := (disk s)\<lparr>token_json := Json (payload k cr)\<rparr>,
                      calls := calls s @ [Call_saveCredentials, Call_writeFile (payload k cr)]\<rparr>)
       \<and> refresh_token (payload k cr) = refresh_token cr
       \<and> access_token (payload k cr) = access_token cr
       \<and> token_type (payload k cr) = token_type cr
       \<and> expiry_date (payload k cr) = expiry_date cr
       \<and> payload_client_id (payload k cr) = client_id k
       \<and> payload_client_secret (payload k cr) = client_secret k
       \<and> payload_type (payload k cr) = Some ''authorized_user''
       \<and> saveCredentials_disk_states c (disk s) =
           [disk s, (disk s)\<lparr>token_json := Malformed\<rparr>,
            (disk s)\<lparr>token_json := Json (payload k cr)\<rparr>]
       \<and> saveCredentials_part000 c s =
           (Inr (), s\<lparr>disk := (disk s)\<lparr>token_json := Json (payload_part000 k cr)\<rparr>,
                      calls := calls s @ [Call_saveCredentials,
                                          Call_writeFile (payload_part000 k cr)]\<rparr>)
       \<and> refresh_token (payload_part000 k cr) = refresh_token cr
       \<and> access_token (payload_part000 k cr) = None
       \<and> token_type (payload_part000 k cr) = None
       \<and> expiry_date (payload_part000 k cr) = None"
proof -
  have a: "saveCredentials c s =
           (Inr (), s\<lparr>disk := (disk s)\<lparr>token_json := Json (payload k cr)\<rparr>,
                      calls := calls s @ [Call_saveCredentials, Call_writeFile (payload k cr)]\<rparr>)"
    using assms by (rule saveCredentials_ok)
  have b: "saveCredentials_disk_states c (disk s) =
           [disk s, (disk s)\<lparr>token_json := Malformed\<rparr>,
            (disk s)\<lparr>token_json := Json (payload k cr)\<rparr>]"
    using assms by (simp add: saveCredentials_disk_states_def read_json_def)
  have c: "saveCredentials_part000 c s =
           (Inr (), s\<lparr>disk := (disk s)\<lparr>token_json := Json (payload_part000 k cr)\<rparr>,
                      calls := calls s @ [Call_saveCredentials,
                                          Call_writeFile (payload_part000 k cr)]\<rparr>)"
    using assms
    by (simp add: saveCredentials_part000_def writeFile_token_def Let_def read_json_def)
  show ?thesis
    unfolding a b c by (simp add: payload_def payload_part000_def)
qed

theorem saveCredentials_writes_payload_witness:
  "saveCredentials (client0 (Some 2000)) (server0 (Some 1000)) =
     (Inr (), (server0 (Some 1000))
        \<lparr>disk := disk0 (Json (payload key0 (creds0 (Some 2000)))),
         calls := [Call_saveCredentials, Call_writeFile (payload key0 (creds0 (Some 2000)))]\<rparr>)"
proof -
  have h1: "credentials_json (disk (server0 (Some 1000))) = Json keys0"
    by (simp add: server0_def disk0_def)
  have h2: "installed_or_web keys0 = Some key0"
    by (simp add: installed_or_web_def keys0_def)
  have h3: "credentials (client0 (Some 2000)) = Some (creds0 (Some 2000))"
    by (simp add: client0_def)
  have h4: "token_writable (disk (server0 (Some 1000)))"
    by (simp add: server0_def disk0_def)
  have "saveCredentials (client0 (Some 2000)) (server0 (Some 1000)) =
          (Inr (), (server0 (Some 1000))
             \<lparr>disk := (disk (server0 (Some 1000)))
                \<lparr>token_json := Json (payload key0 (creds0 (Some 2000)))\<rparr>,
              calls := calls (server0 (Some 1000)) @
                [Call_saveCredentials, Call_writeFile (payload key0 (creds0 (Some 2000)))]\<rparr>)"
    using saveCredentials_writes_payload [OF h1 h2 h3 h4] by (rule conjunct1)
  then show ?thesis by (simp add: server0_def disk0_def)
qed

text \<open>
  C9, as stated, fails: saving over an existing token file makes one direct write to that
  file and no other call, and the token file is empty (not parsable) between its opening
  and the writing of the new text, which is where a stop of the process leaves it.
\<close>

theorem saveCredentials_not_atomic_counterexample:
  "map token_json (saveCredentials_disk_states (client0 (Some 2000)) (disk (server0 (Some 1000)))) =
     [Json (payload key0 (creds0 (Some 1000))), Malformed,
      Json (payload key0 (creds0 (Some 2000)))]
   \<and> calls (snd (saveCredentials (client0 (Some 2000)) (server0 (Some 1000)))) =
       [Call_saveCredentials, Call_writeFile (payload key0 (creds0 (Some 2000)))]"
  by (simp add: saveCredentials_disk_states_def saveCredentials_def writeFile_token_def
      read_json_def installed_or_web_def server0_def disk0_def client0_def keys0_def Let_def)

end
